theory Spec2Isabelle
  imports Main
begin

section \<open>Data model (types.ts)\<close>

text \<open>
  The chat client keeps a list of messages. A JavaScript string is modelled as a
  \<open>string\<close>; an optional field (\<open>image?\<close>, \<open>isError?\<close>) as an \<open>option\<close>, where
  \<open>None\<close> is the absent field. The record fields carry the prefix \<open>msg_\<close> because
  \<open>id\<close> and \<open>text\<close> are taken in Isabelle.
\<close>

datatype Role = USER | MODEL

record Message =
  msg_id :: string
  msg_role :: Role
  msg_text :: string
  msg_image :: "string option"
  msg_timestamp :: int
  msg_isError :: "bool option"

datatype GeminiModel = FLASH | PRO

section \<open>JavaScript string helpers\<close>

text \<open>
  \<open>String.prototype.trim\<close> removes white space and line terminators from both ends.
  Over the 8-bit characters of \<open>string\<close> these are TAB, LF, VT, FF, CR, SP and NBSP.
\<close>

definition isWhiteSpace :: "char \<Rightarrow> bool" where
  "isWhiteSpace c =
     (c = CHR 0x09 \<or> c = CHR 0x0A \<or> c = CHR 0x0B \<or> c = CHR 0x0C \<or> c = CHR 0x0D
      \<or> c = CHR 0x20 \<or> c = CHR 0xA0)"

definition trim :: "string \<Rightarrow> string" where
  "trim s = rev (dropWhile isWhiteSpace (rev (dropWhile isWhiteSpace s)))"

text \<open>\<open>s.startsWith(p)\<close>.\<close>

definition startsWith :: "string \<Rightarrow> string \<Rightarrow> bool" where
  "startsWith s p = (take (length p) s = p)"

text \<open>\<open>s.split(sep)\<close> for a one-character separator; \<open>''''.split(sep)\<close> is \<open>['''']\<close>.\<close>

fun splitOn :: "char \<Rightarrow> string \<Rightarrow> string list" where
  "splitOn sep [] = [[]]"
| "splitOn sep (c # cs) =
     (if c = sep then [] # splitOn sep cs
      else (case splitOn sep cs of
              [] \<Rightarrow> [[c]]
            | p # ps \<Rightarrow> (c # p) # ps))"

text \<open>
  \<open>v || d\<close> for a value \<open>v\<close> of type \<open>string | undefined\<close> and a string \<open>d\<close>:
  only a present, non-empty string is truthy.
\<close>

definition orElse :: "string option \<Rightarrow> string \<Rightarrow> string" where
  "orElse v d = (case v of None \<Rightarrow> d | Some s \<Rightarrow> (if s \<noteq> [] then s else d))"

section \<open>The service layer (services/gemini.ts)\<close>

text \<open>
  A chat session is an object created by the SDK. Its identity is the serial number of
  its creation, so that two sessions created at different times differ even when they
  are configured alike.
\<close>

record Chat =
  chat_serial :: nat
  chat_model :: GeminiModel
  chat_systemInstruction :: string

definition defaultSystemInstruction :: string where
  "defaultSystemInstruction =
     ''You are a helpful, witty, and enthusiastic AI assistant powered by Gemini 3.0. You love to help users with their questions and creative tasks.''"

definition createChatSession :: "nat \<Rightarrow> GeminiModel \<Rightarrow> string option \<Rightarrow> Chat" where
  "createChatSession serial model systemInstruction =
     \<lparr> chat_serial = serial,
       chat_model = model,
       chat_systemInstruction = orElse systemInstruction defaultSystemInstruction \<rparr>"

text \<open>
  \<open>fileToGenerativePart\<close> resolves with the part of the data URL after the first comma
  (\<open>undefined\<close> when there is no comma) and rejects when the reader fails. What the
  browser's reader delivers is an input of the model.
\<close>

datatype ReadResult = ReadFailed | ReadLoaded string

datatype failure = Rejected

definition fileToGenerativePart :: "ReadResult \<Rightarrow> failure + string option" where
  "fileToGenerativePart r =
     (case r of
        ReadFailed \<Rightarrow> Inl Rejected
      | ReadLoaded base64String \<Rightarrow>
          (let parts = splitOn CHR '','' base64String
           in Inr (if 1 < length parts then Some (parts ! 1) else None)))"

text \<open>
  The request handed to \<open>chat.sendMessageStream\<close>: either the message string itself, or
  a message object with a role and a list of parts.
\<close>

datatype Part = TextPart string | InlineData string string

datatype Request = TextMessage string | ContentMessage string "Part list"

text \<open>
  The first half of \<open>sendMessageStream\<close>: the request it builds. The parameter
  \<open>mimeType\<close> defaults to \<open>image/jpeg\<close> when the caller passes \<open>undefined\<close>.
\<close>

definition buildRequest :: "string \<Rightarrow> string option \<Rightarrow> string option \<Rightarrow> Request" where
  "buildRequest message imageBase64 mimeTypeArg =
     (let mimeType = (case mimeTypeArg of None \<Rightarrow> ''image/jpeg'' | Some t \<Rightarrow> t)
      in case imageBase64 of
           None \<Rightarrow> TextMessage message
         | Some d \<Rightarrow>
             (if d \<noteq> [] then ContentMessage ''user'' [TextPart message, InlineData mimeType d]
              else TextMessage message))"

text \<open>
  The second half of \<open>sendMessageStream\<close>: the loop over the chunks of the response.
  A chunk is a \<open>GenerateContentResponse\<close>, of which only the \<open>text\<close> getter is read
  (\<open>string | undefined\<close>). The response is a finite list of chunks followed by its
  outcome: it ends, or it throws. A request that fails before any chunk is the empty
  list with the outcome \<open>Throws\<close>; the generator logs the error and throws it again.
\<close>

datatype GenerateContentResponse = GenerateContentResponse (resp_text: "string option")

datatype Outcome = Completes | Throws

fun sendMessageStream :: "GenerateContentResponse list \<Rightarrow> string list" where
  "sendMessageStream [] = []"
| "sendMessageStream (c # cs) =
     (case resp_text c of
        None \<Rightarrow> sendMessageStream cs
      | Some t \<Rightarrow> (if t \<noteq> [] then t # sendMessageStream cs else sendMessageStream cs))"

section \<open>The application state (App.tsx)\<close>

text \<open>
  The React state of the component, the session reference, and what the component
  does to the world outside: the sessions it has created, the requests it has sent,
  the alerts and console errors it has raised and the object URLs it has revoked.
\<close>

record File =
  file_name :: string
  file_type :: string

record App =
  messages :: "Message list"
  inputValue :: string
  isLoading :: bool
  selectedModel :: GeminiModel
  selectedImage :: "File option"
  imagePreview :: "string option"
  chatSessionRef :: "Chat option"
  chatsCreated :: nat
  sentRequests :: "(Chat \<times> Request) list"
  alerts :: "string list"
  consoleErrors :: "string list"
  revokedURLs :: "string list"

text \<open>
  \<open>startNewChat\<close> closes over the model variant of the render that created it, which
  is its first argument here.
\<close>

definition startNewChat :: "GeminiModel \<Rightarrow> App \<Rightarrow> App" where
  "startNewChat model s =
     s\<lparr> chatSessionRef := Some (createChatSession (chatsCreated s) model None),
        chatsCreated := Suc (chatsCreated s) \<rparr>"

text \<open>
  The state after mounting: the welcome message, and the effect on \<open>selectedModel\<close>
  has run once.
\<close>

definition welcomeText :: string where
  "welcomeText =
     ''Hi there! I'm your Gemini 3.0 powered assistant. I can see images and chat about almost anything. How can I help you today?''"

definition mounted :: "int \<Rightarrow> App" where
  "mounted now =
     startNewChat FLASH
       \<lparr> messages =
           [\<lparr> msg_id = ''welcome'', msg_role = MODEL, msg_text = welcomeText,
              msg_image = None, msg_timestamp = now, msg_isError = None \<rparr>],
         inputValue = [],
         isLoading = False,
         selectedModel = FLASH,
         selectedImage = None,
         imagePreview = None,
         chatSessionRef = None,
         chatsCreated = 0,
         sentRequests = [],
         alerts = [],
         consoleErrors = [],
         revokedURLs = [] \<rparr>"

text \<open>
  A click on a model button calls \<open>setSelectedModel\<close>. React re-renders only when the
  value changes, and the effect that depends on \<open>selectedModel\<close> then runs
  \<open>startNewChat\<close> of the new render.
\<close>

definition selectModel :: "GeminiModel \<Rightarrow> App \<Rightarrow> App" where
  "selectModel model s =
     (if model = selectedModel s then s
      else startNewChat model (s\<lparr> selectedModel := model \<rparr>))"

text \<open>\<open>crypto.randomUUID()\<close> and \<open>Date.now()\<close> are inputs of the model.\<close>

definition clearedText :: string where
  "clearedText = ''Clean slate! Ready when you are.''"

definition handleClearChat :: "string \<Rightarrow> int \<Rightarrow> App \<Rightarrow> App" where
  "handleClearChat uuid now s =
     s\<lparr> messages :=
          [\<lparr> msg_id = uuid, msg_role = MODEL, msg_text = clearedText,
             msg_image = None, msg_timestamp = now, msg_isError = None \<rparr>],
        chatSessionRef := Some (createChatSession (chatsCreated s) (selectedModel s) None),
        chatsCreated := Suc (chatsCreated s) \<rparr>"

text \<open>
  \<open>handleFileSelect\<close>: the first file of the change event (absent when the list is
  empty) and the object URL the browser would create for it.
\<close>

definition handleFileSelect :: "File option \<Rightarrow> string \<Rightarrow> App \<Rightarrow> App" where
  "handleFileSelect file0 objectURL s =
     (case file0 of
        None \<Rightarrow> s
      | Some file \<Rightarrow>
          (if \<not> startsWith (file_type file) ''image/''
           then s\<lparr> alerts := alerts s @ [''Please select an image file.''] \<rparr>
           else s\<lparr> selectedImage := Some file, imagePreview := Some objectURL \<rparr>))"

text \<open>
  \<open>clearImage\<close> revokes the preview URL of the render that created it (its first
  argument). The reset of the file input element is outside the state.
\<close>

definition clearImage :: "string option \<Rightarrow> App \<Rightarrow> App" where
  "clearImage preview s =
     s\<lparr> selectedImage := None,
        revokedURLs :=
          (case preview of
             None \<Rightarrow> revokedURLs s
           | Some url \<Rightarrow> (if url \<noteq> [] then revokedURLs s @ [url] else revokedURLs s)),
        imagePreview := None \<rparr>"

section \<open>Sending a message (handleSendMessage)\<close>

text \<open>
  The values one send draws from the browser: two UUIDs and two readings of the clock.
\<close>

record Draws =
  userMessageId :: string
  userTimestamp :: int
  modelMessageId :: string
  modelTimestamp :: int

text \<open>
  The constants the handler binds before its first suspension, and the model variant
  its \<open>startNewChat\<close> closes over.
\<close>

record Locals =
  currentText :: string
  currentImage :: "File option"
  currentPreview :: "string option"
  closureModel :: GeminiModel

definition capture :: "App \<Rightarrow> Locals" where
  "capture s =
     \<lparr> currentText = inputValue s,
       currentImage = selectedImage s,
       currentPreview = imagePreview s,
       closureModel = selectedModel s \<rparr>"

text \<open>The guard in the first line of the handler: \<open>True\<close> when the handler returns at once.\<close>

definition sendRejected :: "App \<Rightarrow> bool" where
  "sendRejected s = ((trim (inputValue s) = [] \<and> selectedImage s = None) \<or> isLoading s)"

text \<open>The image is encoded only when one is attached.\<close>

definition encodeImage :: "Locals \<Rightarrow> ReadResult \<Rightarrow> failure + string option" where
  "encodeImage l r =
     (case currentImage l of
        None \<Rightarrow> Inr None
      | Some file \<Rightarrow> fileToGenerativePart r)"

definition newUserMessage :: "Draws \<Rightarrow> Locals \<Rightarrow> Message" where
  "newUserMessage d l =
     \<lparr> msg_id = userMessageId d,
       msg_role = USER,
       msg_text = currentText l,
       msg_image =
         (case currentPreview l of
            None \<Rightarrow> None
          | Some url \<Rightarrow> (if url \<noteq> [] then Some url else None)),
       msg_timestamp = userTimestamp d,
       msg_isError = None \<rparr>"

definition placeholder :: "Draws \<Rightarrow> Message" where
  "placeholder d =
     \<lparr> msg_id = modelMessageId d,
       msg_role = MODEL,
       msg_text = [],
       msg_image = None,
       msg_timestamp = modelTimestamp d,
       msg_isError = None \<rparr>"

text \<open>\<open>currentText || (currentImage ? "What is in this image?" : "Hello")\<close>.\<close>

definition promptText :: "Locals \<Rightarrow> string" where
  "promptText l =
     (if currentText l \<noteq> [] then currentText l
      else (case currentImage l of
              Some file \<Rightarrow> ''What is in this image?''
            | None \<Rightarrow> ''Hello''))"

text \<open>
  The handler from the end of the encoding to the call of \<open>sendMessageStream\<close>: the
  user message, the reset of the input, the loading flag, the placeholder, the session
  and the request. After \<open>startNewChat\<close> the session reference is never empty, so
  the last \<open>None\<close> case is never taken.
\<close>

definition beginStream :: "Draws \<Rightarrow> Locals \<Rightarrow> string option \<Rightarrow> App \<Rightarrow> App" where
  "beginStream d l imageBase64 s =
     (let s1 = s\<lparr> messages := messages s @ [newUserMessage d l] \<rparr>;
          s2 = s1\<lparr> inputValue := [] \<rparr>;
          s3 = clearImage (currentPreview l) s2;
          s4 = s3\<lparr> isLoading := True \<rparr>;
          s5 = s4\<lparr> messages := messages s4 @ [placeholder d] \<rparr>;
          s6 = (case chatSessionRef s5 of
                  None \<Rightarrow> startNewChat (closureModel l) s5
                | Some chat \<Rightarrow> s5)
      in case chatSessionRef s6 of
           None \<Rightarrow> s6
         | Some chat \<Rightarrow>
             s6\<lparr> sentRequests := sentRequests s6 @
                  [(chat, buildRequest (promptText l) imageBase64
                            (map_option file_type (currentImage l)))] \<rparr>)"

text \<open>The update of the message list on every fragment, and the one of the error path.\<close>

definition setPlaceholderText :: "string \<Rightarrow> string \<Rightarrow> App \<Rightarrow> App" where
  "setPlaceholderText mid fullResponse s =
     s\<lparr> messages :=
          map (\<lambda>msg. if msg_id msg = mid then msg\<lparr> msg_text := fullResponse \<rparr> else msg)
            (messages s) \<rparr>"

definition errorText :: string where
  "errorText = ''Sorry, something went wrong. Please check your connection or API key.''"

definition setPlaceholderError :: "string \<Rightarrow> App \<Rightarrow> App" where
  "setPlaceholderError mid s =
     s\<lparr> messages :=
          map (\<lambda>msg. if msg_id msg = mid
                      then msg\<lparr> msg_text := errorText, msg_isError := Some True \<rparr>
                      else msg)
            (messages s) \<rparr>"

text \<open>
  The loop over the fragments, started with the response received so far. It returns
  the state after each fragment, in order. React runs the function passed to
  \<open>setMessages\<close> when it renders, and the function reads \<open>fullResponse\<close> then; the
  loop waits for the next fragment after every update, and the model applies the
  update at once.
\<close>

fun forAwait :: "string \<Rightarrow> string \<Rightarrow> string list \<Rightarrow> App \<Rightarrow> App list" where
  "forAwait mid fullResponse [] s = []"
| "forAwait mid fullResponse (chunk # rest) s =
     (let fullResponse' = fullResponse @ chunk;
          s' = setPlaceholderText mid fullResponse' s
      in s' # forAwait mid fullResponse' rest s')"

text \<open>
  The end of the handler: the \<open>catch\<close> block when the stream throws (after the
  generator has logged and thrown the error again), then the \<open>finally\<close> block.
\<close>

definition settle :: "Outcome \<Rightarrow> string \<Rightarrow> App \<Rightarrow> App" where
  "settle outcome mid s =
     (case outcome of
        Completes \<Rightarrow> s\<lparr> isLoading := False \<rparr>
      | Throws \<Rightarrow>
          (setPlaceholderError mid
             (s\<lparr> consoleErrors := consoleErrors s @ [''Gemini API Error:'', ''Chat Error''] \<rparr>))
            \<lparr> isLoading := False \<rparr>)"

definition encodingFailed :: "App \<Rightarrow> App" where
  "encodingFailed s = s\<lparr> consoleErrors := consoleErrors s @ [''Failed to process image''] \<rparr>"

text \<open>
  The states of a send while it consumes the stream: one after each fragment. They are
  defined when the send is accepted and the image, if any, is encoded.
\<close>

definition streamingStates ::
  "Draws \<Rightarrow> string option \<Rightarrow> GenerateContentResponse list \<Rightarrow> App \<Rightarrow> App list" where
  "streamingStates d imageBase64 chunks s =
     (let s1 = beginStream d (capture s) imageBase64 s
      in forAwait (modelMessageId d) [] (sendMessageStream chunks) s1)"

text \<open>
  The whole handler, run without another handler in between: the draws, what the
  reader delivers, the chunks of the response and its outcome are its inputs.
\<close>

definition handleSendMessage ::
  "Draws \<Rightarrow> ReadResult \<Rightarrow> GenerateContentResponse list \<Rightarrow> Outcome \<Rightarrow> App \<Rightarrow> App" where
  "handleSendMessage d r chunks outcome s =
     (if sendRejected s then s
      else
        (case encodeImage (capture s) r of
           Inl err \<Rightarrow> encodingFailed s
         | Inr imageBase64 \<Rightarrow>
             (let s1 = beginStream d (capture s) imageBase64 s;
                  s2 = last (s1 # streamingStates d imageBase64 chunks s)
              in settle outcome (modelMessageId d) s2)))"

section \<open>Handlers that overlap\<close>

text \<open>
  A handler suspended at an \<open>await\<close> lets other handlers run. A send is suspended
  while the image is read and while it waits for the next chunk. The machine keeps one
  task for every send that has been accepted, and runs the handlers one event at a
  time; between two events React has rendered, so every handler reads the current
  state.
\<close>

datatype Task =
    Encoding Draws Locals
  | Streaming string string
  | Finished

record Machine =
  app :: App
  tasks :: "Task list"

datatype Event =
    Send Draws
  | Encoded nat ReadResult
  | Chunk nat GenerateContentResponse
  | StreamEnd nat Outcome
  | Typed string
  | FileSelected "File option" string
  | ImageRemoved
  | ModelSelected GeminiModel
  | ClearClicked string int

fun isStreaming :: "Task \<Rightarrow> bool" where
  "isStreaming (Streaming mid fullResponse) = True"
| "isStreaming t = False"

text \<open>The task with index \<open>i\<close>; a task that does not exist is a finished one.\<close>

definition task :: "Machine \<Rightarrow> nat \<Rightarrow> Task" where
  "task m i = (if i < length (tasks m) then tasks m ! i else Finished)"

fun step :: "Machine \<Rightarrow> Event \<Rightarrow> Machine" where
  "step m (Send d) =
     (if sendRejected (app m) then m
      else
        (case currentImage (capture (app m)) of
           Some file \<Rightarrow> m\<lparr> tasks := tasks m @ [Encoding d (capture (app m))] \<rparr>
         | None \<Rightarrow>
             m\<lparr> app := beginStream d (capture (app m)) None (app m),
                tasks := tasks m @ [Streaming (modelMessageId d) []] \<rparr>))"
| "step m (Encoded i r) =
     (case task m i of
        Encoding d l \<Rightarrow>
          (case fileToGenerativePart r of
             Inl err \<Rightarrow> m\<lparr> app := encodingFailed (app m), tasks := (tasks m)[i := Finished] \<rparr>
           | Inr imageBase64 \<Rightarrow>
               m\<lparr> app := beginStream d l imageBase64 (app m),
                  tasks := (tasks m)[i := Streaming (modelMessageId d) []] \<rparr>)
      | Streaming mid fullResponse \<Rightarrow> m
      | Finished \<Rightarrow> m)"
| "step m (Chunk i c) =
     (case task m i of
        Streaming mid fullResponse \<Rightarrow>
          (case sendMessageStream [c] of
             [] \<Rightarrow> m
           | chunk # rest \<Rightarrow>
               m\<lparr> app := setPlaceholderText mid (fullResponse @ chunk) (app m),
                  tasks := (tasks m)[i := Streaming mid (fullResponse @ chunk)] \<rparr>)
      | Encoding d l \<Rightarrow> m
      | Finished \<Rightarrow> m)"
| "step m (StreamEnd i outcome) =
     (case task m i of
        Streaming mid fullResponse \<Rightarrow>
          m\<lparr> app := settle outcome mid (app m), tasks := (tasks m)[i := Finished] \<rparr>
      | Encoding d l \<Rightarrow> m
      | Finished \<Rightarrow> m)"
| "step m (Typed v) = m\<lparr> app := (app m)\<lparr> inputValue := v \<rparr> \<rparr>"
| "step m (FileSelected file0 objectURL) = m\<lparr> app := handleFileSelect file0 objectURL (app m) \<rparr>"
| "step m ImageRemoved = m\<lparr> app := clearImage (imagePreview (app m)) (app m) \<rparr>"
| "step m (ModelSelected model) = m\<lparr> app := selectModel model (app m) \<rparr>"
| "step m (ClearClicked uuid now) = m\<lparr> app := handleClearChat uuid now (app m) \<rparr>"

definition run :: "Machine \<Rightarrow> Event list \<Rightarrow> Machine" where
  "run m es = foldl step m es"

text \<open>The number of sends that are writing into their placeholder.\<close>

definition streamingCount :: "Machine \<Rightarrow> nat" where
  "streamingCount m = length (filter isStreaming (tasks m))"

section \<open>Further notions for the statements\<close>

text \<open>
  The session in use is one that has been counted: its serial number is below the
  number of sessions created. A session created now then differs from it.
\<close>

definition sessionsCounted :: "App \<Rightarrow> bool" where
  "sessionsCounted s =
     (case chatSessionRef s of
        None \<Rightarrow> True
      | Some chat \<Rightarrow> chat_serial chat < chatsCreated s)"

subsection \<open>Sends that do not overlap\<close>

text \<open>
  A machine is gated when no image is attached, no send is encoding an image, at most
  one send is streaming, and the loading flag is set while one is.
\<close>

fun isEncoding :: "Task \<Rightarrow> bool" where
  "isEncoding (Encoding d l) = True"
| "isEncoding t = False"

fun attachesFile :: "Event \<Rightarrow> bool" where
  "attachesFile (FileSelected (Some file) objectURL) = True"
| "attachesFile e = False"

definition gated :: "Machine \<Rightarrow> bool" where
  "gated m =
     (selectedImage (app m) = None
      \<and> list_all (\<lambda>t. \<not> isEncoding t) (tasks m)
      \<and> streamingCount m \<le> 1
      \<and> (streamingCount m = 1 \<longrightarrow> isLoading (app m)))"

subsection \<open>Example inputs\<close>

definition exampleDraws :: Draws where
  "exampleDraws =
     \<lparr> userMessageId = ''u-1'', userTimestamp = 1001,
       modelMessageId = ''m-1'', modelTimestamp = 1002 \<rparr>"

definition laterDraws :: Draws where
  "laterDraws =
     \<lparr> userMessageId = ''u-2'', userTimestamp = 1003,
       modelMessageId = ''m-2'', modelTimestamp = 1004 \<rparr>"

definition exampleFile :: File where
  "exampleFile = \<lparr> file_name = ''cat.png'', file_type = ''image/png'' \<rparr>"

definition helloApp :: App where
  "helloApp = (mounted 1000)\<lparr> inputValue := ''Hello'' \<rparr>"

definition exampleChunks :: "GenerateContentResponse list" where
  "exampleChunks =
     [GenerateContentResponse (Some ''Hi''), GenerateContentResponse None,
      GenerateContentResponse (Some '' there!'')]"

definition imageApp :: App where
  "imageApp = handleFileSelect (Some exampleFile) ''blob:1'' (mounted 1000)"

text \<open>
  Two clicks on send with an image attached, before the first image has been read.
\<close>

definition overlapEvents :: "Event list" where
  "overlapEvents =
     [FileSelected (Some exampleFile) ''blob:1'', Typed ''hi'',
      Send exampleDraws, Send laterDraws,
      Encoded 0 (ReadLoaded ''data:image/png;base64,iVBORw0KGgo=''),
      Encoded 1 (ReadLoaded ''data:image/png;base64,iVBORw0KGgo='')]"

section \<open>Properties of the loops\<close>

lemma sendMessageStream_append:
  "sendMessageStream (xs @ ys) = sendMessageStream xs @ sendMessageStream ys"
  by (induction xs) (simp_all split: option.splits)

text \<open>Every list of non-empty fragments is what some response yields.\<close>

lemma sendMessageStream_of_fragments:
  "list_all (\<lambda>f. f \<noteq> []) frags \<Longrightarrow>
     sendMessageStream (map (\<lambda>f. GenerateContentResponse (Some f)) frags) = frags"
  by (induction frags) simp_all

lemma setPlaceholderText_again:
  "setPlaceholderText mid t2 (setPlaceholderText mid t1 s) = setPlaceholderText mid t2 s"
  by (simp add: setPlaceholderText_def)

lemma forAwait_length: "length (forAwait mid full frags s) = length frags"
  by (induction frags arbitrary: full s) (simp_all add: Let_def)

text \<open>The state after the fragment with index \<open>j\<close> has been consumed.\<close>

lemma forAwait_nth:
  "j < length frags \<Longrightarrow>
     forAwait mid full frags s ! j =
       setPlaceholderText mid (full @ concat (take (Suc j) frags)) s"
proof (induction frags arbitrary: full s j)
  case Nil
  then show ?case by simp
next
  case (Cons f frags)
  show ?case
  proof (cases j)
    case 0
    then show ?thesis by (simp add: Let_def)
  next
    case (Suc k)
    with Cons.prems have "k < length frags" by simp
    from Cons.IH [OF this] Suc show ?thesis
      by (simp add: Let_def setPlaceholderText_again)
  qed
qed

lemma forAwait_last:
  "last (s # forAwait mid full frags s) =
     (if frags = [] then s else setPlaceholderText mid (full @ concat frags) s)"
proof (cases "frags = []")
  case True
  then show ?thesis by simp
next
  case False
  then have n: "forAwait mid full frags s \<noteq> []"
    using forAwait_length [of mid full frags s] by auto
  have "last (forAwait mid full frags s) = forAwait mid full frags s ! (length frags - 1)"
    using n by (simp add: last_conv_nth forAwait_length)
  also have "\<dots> = setPlaceholderText mid (full @ concat (take (Suc (length frags - 1)) frags)) s"
    using False by (intro forAwait_nth) simp
  finally show ?thesis using False n by simp
qed

section \<open>The fragments of the stream\<close>

text \<open>
  Claim C6. Every fragment that \<open>sendMessageStream\<close> yields is a non-empty string and
  is the text of one of the chunks of the response; a chunk whose text is absent or
  empty is skipped: the fragments are the same as if that chunk had not arrived.
\<close>

theorem fragments_nonempty:
  "(\<forall>f \<in> set (sendMessageStream chunks).
      f \<noteq> [] \<and> (\<exists>c \<in> set chunks. resp_text c = Some f))
   \<and> (\<forall>c before after.
        resp_text c = None \<or> resp_text c = Some [] \<longrightarrow>
          sendMessageStream (before @ c # after) = sendMessageStream (before @ after))"
proof (intro conjI allI impI)
  show "\<forall>f \<in> set (sendMessageStream chunks).
          f \<noteq> [] \<and> (\<exists>c \<in> set chunks. resp_text c = Some f)"
    by (induction chunks) (auto split: option.splits)
next
  fix c before after
  assume "resp_text c = None \<or> resp_text c = Some []"
  then have "sendMessageStream [c] = []" by auto
  then have "sendMessageStream ([c] @ after) = sendMessageStream after"
    unfolding sendMessageStream_append by simp
  then show "sendMessageStream (before @ c # after) = sendMessageStream (before @ after)"
    by (simp add: sendMessageStream_append)
qed

theorem fragments_nonempty_witness:
  "sendMessageStream
     [GenerateContentResponse (Some ''Hi''), GenerateContentResponse None,
      GenerateContentResponse (Some []), GenerateContentResponse (Some '' there!'')]
     = [''Hi'', '' there!'']
   \<and> ''Hi'' \<noteq> [] \<and> '' there!'' \<noteq> []
   \<and> resp_text (GenerateContentResponse None) = None
   \<and> sendMessageStream
        ([GenerateContentResponse (Some ''Hi'')] @ GenerateContentResponse None # [])
      = sendMessageStream ([GenerateContentResponse (Some ''Hi'')] @ [])"
  using fragments_nonempty
    [of "[GenerateContentResponse (Some ''Hi''), GenerateContentResponse None,
          GenerateContentResponse (Some []), GenerateContentResponse (Some '' there!'')]"]
  by simp

section \<open>Properties of the handlers\<close>

lemma beginStream_messages:
  "messages (beginStream d l b s) = messages s @ [newUserMessage d l, placeholder d]"
  by (simp add: beginStream_def Let_def clearImage_def startNewChat_def split: option.splits)

lemma beginStream_sentRequests:
  "\<exists>chat. sentRequests (beginStream d l b s) =
     sentRequests s @ [(chat, buildRequest (promptText l) b (map_option file_type (currentImage l)))]"
  by (simp add: beginStream_def Let_def clearImage_def startNewChat_def split: option.splits)

lemma handleSendMessage_accepted:
  assumes "\<not> sendRejected s" and "encodeImage (capture s) r = Inr b"
  shows "handleSendMessage d r chunks outcome s =
     settle outcome (modelMessageId d)
       (if sendMessageStream chunks = [] then beginStream d (capture s) b s
        else setPlaceholderText (modelMessageId d) (concat (sendMessageStream chunks))
               (beginStream d (capture s) b s))"
  using assms by (simp add: handleSendMessage_def streamingStates_def Let_def forAwait_last del: last.simps)

lemma last_setPlaceholderText:
  "messages s \<noteq> [] \<Longrightarrow> msg_id (last (messages s)) = mid \<Longrightarrow>
     last (messages (setPlaceholderText mid t s)) = (last (messages s))\<lparr> msg_text := t \<rparr>"
  by (simp add: setPlaceholderText_def last_map)

lemma trim_nonempty: "trim v \<noteq> [] \<Longrightarrow> v \<noteq> []"
  by (auto simp: trim_def)

lemma handleSendMessage_Throws_messages:
  assumes "\<not> sendRejected s" and "encodeImage (capture s) r = Inr b"
  shows "messages (handleSendMessage d r chunks Throws s) =
     map (\<lambda>msg. if msg_id msg = modelMessageId d
                 then msg\<lparr> msg_text := errorText, msg_isError := Some True \<rparr> else msg)
       (messages s @ [newUserMessage d (capture s), placeholder d])"
  by (simp add: handleSendMessage_accepted [OF assms] settle_def setPlaceholderError_def
      setPlaceholderText_def beginStream_messages)

lemma helloApp_accepted: "\<not> sendRejected helloApp"
  by (simp add: sendRejected_def helloApp_def mounted_def startNewChat_def trim_def isWhiteSpace_def)

lemma helloApp_encode: "encodeImage (capture helloApp) ReadFailed = Inr None"
  by (simp add: encodeImage_def capture_def helloApp_def mounted_def startNewChat_def)

lemma exampleChunks_fragments: "sendMessageStream exampleChunks = [''Hi'', '' there!'']"
  by (simp add: exampleChunks_def)

text \<open>A send is refused while the loading flag is set.\<close>

lemma loading_send_rejected:
  "isLoading s \<Longrightarrow>
     handleSendMessage d r chunks outcome s = s
     \<and> step \<lparr> app = s, tasks = ts \<rparr> (Send d) = \<lparr> app = s, tasks = ts \<rparr>"
  by (simp add: handleSendMessage_def sendRejected_def)

lemma beginStream_chatSessionRef:
  "\<exists>chat. chatSessionRef (beginStream d l b s) = Some chat
     \<and> sentRequests (beginStream d l b s) =
         sentRequests s @ [(chat, buildRequest (promptText l) b (map_option file_type (currentImage l)))]"
  by (simp add: beginStream_def Let_def clearImage_def startNewChat_def split: option.splits)

lemma handleSendMessage_sentRequests:
  assumes "\<not> sendRejected s" and "encodeImage (capture s) r = Inr b"
  shows "\<exists>chat. chatSessionRef (handleSendMessage d r chunks outcome s) = Some chat
     \<and> sentRequests (handleSendMessage d r chunks outcome s) =
         sentRequests s @ [(chat, buildRequest (promptText (capture s)) b
                                   (map_option file_type (selectedImage s)))]"
  using beginStream_chatSessionRef [of d "capture s" b s]
  by (cases outcome)
     (auto simp add: handleSendMessage_accepted [OF assms] settle_def setPlaceholderError_def
        setPlaceholderText_def capture_def)

lemma map_fresh:
  "mid \<notin> msg_id ` set xs \<Longrightarrow> map (\<lambda>msg. if msg_id msg = mid then f msg else msg) xs = xs"
  by (intro map_idI) force

lemma imageApp_fields:
  "selectedImage imageApp = Some exampleFile"
  "inputValue imageApp = []"
  "sentRequests imageApp = []"
  "isLoading imageApp = False"
  by (simp_all add: imageApp_def handleFileSelect_def exampleFile_def startsWith_def
      mounted_def startNewChat_def)

lemma helloApp_fields:
  "selectedImage helloApp = None"
  "inputValue helloApp = ''Hello''"
  "sentRequests helloApp = []"
  by (simp_all add: helloApp_def mounted_def startNewChat_def)

section \<open>Properties of the machine\<close>

lemma run_Cons: "run m (e # es) = run (step m e) es"
  by (simp add: run_def)

lemma run_append: "run m (es @ es') = run (run m es) es'"
  by (simp add: run_def)

lemma task_Streaming:
  "task m i = Streaming mid full \<Longrightarrow> i < length (tasks m) \<and> tasks m ! i = Streaming mid full"
  by (simp add: task_def split: if_splits)

text \<open>The chunks of one send, with no other handler in between, are its loop.\<close>

lemma run_chunks:
  "task m i = Streaming mid full \<Longrightarrow>
     app (run m (map (Chunk i) chunks)) =
       last (app m # forAwait mid full (sendMessageStream chunks) (app m))
     \<and> tasks (run m (map (Chunk i) chunks)) =
         (tasks m)[i := Streaming mid (full @ concat (sendMessageStream chunks))]"
proof (induction chunks arbitrary: m full)
  case Nil
  from task_Streaming [OF Nil] show ?case
    by (simp add: run_def) (metis list_update_id)
next
  case (Cons c chunks)
  note t = task_Streaming [OF Cons.prems]
  show ?case
  proof (cases "sendMessageStream [c]")
    case Nil
    then have s: "step m (Chunk i c) = m" using Cons.prems by simp
    from Nil have f: "sendMessageStream (c # chunks) = sendMessageStream chunks"
      by (simp split: option.splits if_splits)
    from Cons.IH [OF Cons.prems] show ?thesis
      by (simp add: run_Cons s f del: step.simps last.simps sendMessageStream.simps)
  next
    case (Cons chunk rest)
    then have f: "sendMessageStream (c # chunks) = chunk # sendMessageStream chunks"
      by (simp split: option.splits if_splits)
    define m' where "m' = m\<lparr> app := setPlaceholderText mid (full @ chunk) (app m),
                  tasks := (tasks m)[i := Streaming mid (full @ chunk)] \<rparr>"
    have s: "step m (Chunk i c) = m'"
      using Cons.prems Cons by (simp add: m'_def)
    have t': "task m' i = Streaming mid (full @ chunk)"
      using t by (simp add: m'_def task_def)
    from Cons.IH [OF t'] show ?thesis
      by (simp add: run_Cons s f forAwait_last setPlaceholderText_again
            del: step.simps last.simps sendMessageStream.simps forAwait.simps)
         (simp add: m'_def setPlaceholderText_again)
  qed
qed

text \<open>
  One send run by the machine, with no other handler in between, is the handler
  \<open>handleSendMessage\<close>.
\<close>

lemma run_single_send:
  assumes "\<not> sendRejected s" and "encodeImage (capture s) r = Inr b"
  shows "app (run \<lparr> app = s, tasks = ts \<rparr>
           (Send d # (case selectedImage s of None \<Rightarrow> [] | Some img \<Rightarrow> [Encoded (length ts) r])
              @ map (Chunk (length ts)) chunks @ [StreamEnd (length ts) outcome]))
         = handleSendMessage d r chunks outcome s"
proof -
  define m1 where "m1 = \<lparr> app = beginStream d (capture s) b s,
                          tasks = ts @ [Streaming (modelMessageId d) []] \<rparr>"
  have start: "run \<lparr> app = s, tasks = ts \<rparr>
      (Send d # (case selectedImage s of None \<Rightarrow> [] | Some img \<Rightarrow> [Encoded (length ts) r])) = m1"
  proof (cases "selectedImage s")
    case None
    with assms show ?thesis
      by (simp add: run_def m1_def capture_def encodeImage_def)
  next
    case (Some img)
    with assms show ?thesis
      by (simp add: run_def m1_def capture_def encodeImage_def task_def)
  qed
  have t: "task m1 (length ts) = Streaming (modelMessageId d) []"
    by (simp add: m1_def task_def)
  note c = run_chunks [OF t, of chunks]
  have t2: "task (run m1 (map (Chunk (length ts)) chunks)) (length ts) =
     Streaming (modelMessageId d) (concat (sendMessageStream chunks))"
    using c by (simp add: task_def m1_def)
  define es0 where "es0 = Send d #
      (case selectedImage s of None \<Rightarrow> [] | Some img \<Rightarrow> [Encoded (length ts) r])"
  have "run \<lparr> app = s, tasks = ts \<rparr>
           (es0 @ map (Chunk (length ts)) chunks @ [StreamEnd (length ts) outcome])
        = step (run m1 (map (Chunk (length ts)) chunks)) (StreamEnd (length ts) outcome)"
    using start unfolding es0_def [symmetric] run_append by (simp add: run_def)
  then have "run \<lparr> app = s, tasks = ts \<rparr>
           (Send d # (case selectedImage s of None \<Rightarrow> [] | Some img \<Rightarrow> [Encoded (length ts) r])
              @ map (Chunk (length ts)) chunks @ [StreamEnd (length ts) outcome])
        = step (run m1 (map (Chunk (length ts)) chunks)) (StreamEnd (length ts) outcome)"
    by (simp add: es0_def)
  then show ?thesis
    using c t2 assms
    by (simp add: handleSendMessage_def Let_def streamingStates_def m1_def del: last.simps)
qed

lemma filter_update_same:
  "i < length ts \<Longrightarrow> P (ts ! i) \<Longrightarrow> P x \<Longrightarrow>
     length (filter P (ts[i := x])) = length (filter P ts)"
proof (induction ts arbitrary: i)
  case Nil
  then show ?case by simp
next
  case (Cons t ts)
  then show ?case by (cases i) simp_all
qed

lemma filter_update_drop:
  "i < length ts \<Longrightarrow> P (ts ! i) \<Longrightarrow> \<not> P x \<Longrightarrow>
     Suc (length (filter P (ts[i := x]))) = length (filter P ts)"
proof (induction ts arbitrary: i)
  case Nil
  then show ?case by simp
next
  case (Cons t ts)
  then show ?case by (cases i) simp_all
qed

lemma list_all_update:
  "list_all Q ts \<Longrightarrow> Q x \<Longrightarrow> list_all Q (ts[i := x])"
  using set_update_subset_insert [of ts i x] by (auto simp: list_all_iff)

lemma beginStream_fields:
  "isLoading (beginStream d l b s) = True"
  "selectedImage (beginStream d l b s) = None"
  by (simp_all add: beginStream_def Let_def clearImage_def startNewChat_def split: option.splits)

text \<open>
  While no file is attached, the machine stays gated: a send that carries no image sets
  the loading flag in the event that accepts it, and at most one send is streaming.
\<close>

lemma gated_step:
  assumes "gated m" and "\<not> attachesFile e"
  shows "gated (step m e)"
proof (cases e)
  case (Send d)
  show ?thesis
  proof (cases "sendRejected (app m)")
    case True
    with Send assms show ?thesis by simp
  next
    case False
    then have "\<not> isLoading (app m)" by (simp add: sendRejected_def)
    with assms(1) have "streamingCount m = 0" by (auto simp: gated_def)
    with Send False assms(1) show ?thesis
      by (simp add: gated_def capture_def streamingCount_def beginStream_fields)
  qed
next
  case (Encoded i r)
  have "\<not> isEncoding (task m i)"
    using assms(1) by (auto simp: gated_def task_def list_all_iff)
  with Encoded assms(1) show ?thesis
    by (cases "task m i") simp_all
next
  case (Chunk i c)
  show ?thesis
  proof (cases "task m i")
    case (Streaming mid full)
    note t = task_Streaming [OF this]
    from t have c: "\<And>x. isStreaming x \<Longrightarrow>
        length (filter isStreaming ((tasks m)[i := x])) = length (filter isStreaming (tasks m))"
      by (intro filter_update_same) simp_all
    from Chunk Streaming assms(1) show ?thesis
      by (auto simp add: gated_def streamingCount_def c list_all_update setPlaceholderText_def
          split: list.splits)
  qed (use Chunk assms(1) in simp_all)
next
  case (StreamEnd i outcome)
  show ?thesis
  proof (cases "task m i")
    case (Streaming mid full)
    note t = task_Streaming [OF this]
    from t have c: "Suc (length (filter isStreaming ((tasks m)[i := Finished]))) =
        length (filter isStreaming (tasks m))"
      by (intro filter_update_drop) simp_all
    with assms(1) have "length (filter isStreaming ((tasks m)[i := Finished])) = 0"
      unfolding gated_def streamingCount_def by linarith
    then have z: "filter isStreaming ((tasks m)[i := Finished]) = []" by simp
    from StreamEnd Streaming assms(1) show ?thesis
      by (cases outcome)
         (simp_all add: gated_def streamingCount_def z list_all_update settle_def
            setPlaceholderError_def)
  qed (use StreamEnd assms(1) in simp_all)
next
  case (Typed v)
  with assms(1) show ?thesis by (simp add: gated_def streamingCount_def)
next
  case (FileSelected file0 objectURL)
  with assms(2) have "file0 = None" by (cases file0) simp_all
  with FileSelected assms(1) show ?thesis by (simp add: handleFileSelect_def)
next
  case ImageRemoved
  with assms(1) show ?thesis
    by (simp add: gated_def streamingCount_def clearImage_def)
next
  case (ModelSelected model)
  with assms(1) show ?thesis
    by (simp add: gated_def streamingCount_def selectModel_def startNewChat_def)
next
  case (ClearClicked uuid now)
  with assms(1) show ?thesis
    by (simp add: gated_def streamingCount_def handleClearChat_def)
qed

lemma gated_run:
  "gated m \<Longrightarrow> list_all (\<lambda>e. \<not> attachesFile e) es \<Longrightarrow> gated (run m es)"
  unfolding run_def
  by (induction es arbitrary: m) (simp_all add: gated_step)

lemma text_only_sends_do_not_overlap:
  "list_all (\<lambda>e. \<not> attachesFile e) es \<Longrightarrow>
     streamingCount (run \<lparr> app = mounted now, tasks = [] \<rparr> es) \<le> 1"
proof -
  assume a: "list_all (\<lambda>e. \<not> attachesFile e) es"
  have "gated \<lparr> app = mounted now, tasks = [] \<rparr>"
    by (simp add: gated_def streamingCount_def mounted_def startNewChat_def)
  from gated_run [OF this a] show ?thesis by (simp add: gated_def)
qed

text \<open>The session in use has been counted in every state the machine reaches.\<close>

lemma sessionsCounted_step:
  assumes "sessionsCounted (app m)"
  shows "sessionsCounted (app (step m e))"
proof -
  have b: "\<And>d l b. sessionsCounted (beginStream d l b (app m))"
    using assms
    by (auto simp add: sessionsCounted_def beginStream_def Let_def clearImage_def startNewChat_def
        createChatSession_def split: option.splits)
  show ?thesis
  proof (cases e)
    case (Send d)
    with assms b show ?thesis by (simp split: option.splits)
  next
    case (Encoded i r)
    with assms b show ?thesis
      by (cases "task m i"; cases "fileToGenerativePart r")
         (auto simp add: encodingFailed_def sessionsCounted_def split: option.splits)
  next
    case (Chunk i c)
    with assms show ?thesis
      by (cases "task m i")
         (auto simp add: sessionsCounted_def setPlaceholderText_def split: list.splits option.splits)
  next
    case (StreamEnd i outcome)
    with assms show ?thesis
      by (cases "task m i"; cases outcome)
         (auto simp add: sessionsCounted_def settle_def setPlaceholderError_def split: option.splits)
  next
    case (Typed v)
    with assms show ?thesis by (auto simp add: sessionsCounted_def split: option.splits)
  next
    case (FileSelected file0 objectURL)
    with assms show ?thesis
      by (auto simp add: sessionsCounted_def handleFileSelect_def split: option.splits)
  next
    case ImageRemoved
    with assms show ?thesis
      by (auto simp add: sessionsCounted_def clearImage_def split: option.splits)
  next
    case (ModelSelected model)
    with assms show ?thesis
      by (auto simp add: sessionsCounted_def selectModel_def startNewChat_def
          createChatSession_def split: option.splits)
  next
    case (ClearClicked uuid now)
    with assms show ?thesis
      by (simp add: sessionsCounted_def handleClearChat_def createChatSession_def)
  qed
qed

lemma sessionsCounted_run:
  "sessionsCounted (app (run \<lparr> app = mounted now, tasks = [] \<rparr> es))"
proof -
  have "sessionsCounted (app m) \<Longrightarrow> sessionsCounted (app (foldl step m es))" for m
    by (induction es arbitrary: m) (simp_all add: sessionsCounted_step)
  moreover have "sessionsCounted (app \<lparr> app = mounted now, tasks = [] \<rparr>)"
    by (simp add: sessionsCounted_def mounted_def startNewChat_def createChatSession_def)
  ultimately show ?thesis by (simp add: run_def)
qed

section \<open>The claims about a send\<close>

text \<open>
  Claim C1. When a send is accepted and the response completes without error, the
  last message of the list is the placeholder and its final text is the concatenation
  of the fragments in the order of their arrival. The placeholder is empty when the
  stream is opened, there is one state per fragment, and in the state after the
  fragment with index \<open>j\<close> the placeholder holds the concatenation of the fragments
  up to that one.
\<close>

theorem stream_accumulates:
  assumes "\<not> sendRejected s" and "encodeImage (capture s) r = Inr b"
  shows "last (messages (handleSendMessage d r chunks Completes s)) =
           (placeholder d)\<lparr> msg_text := concat (sendMessageStream chunks) \<rparr>
       \<and> last (messages (beginStream d (capture s) b s)) = placeholder d
       \<and> length (streamingStates d b chunks s) = length (sendMessageStream chunks)
       \<and> (\<forall>j < length (sendMessageStream chunks).
            last (messages (streamingStates d b chunks s ! j)) =
              (placeholder d)\<lparr> msg_text := concat (take (Suc j) (sendMessageStream chunks)) \<rparr>)"
proof (intro conjI allI impI)
  let ?s1 = "beginStream d (capture s) b s"
  have l: "last (messages ?s1) = placeholder d" and n: "messages ?s1 \<noteq> []"
    by (simp_all add: beginStream_messages)
  have i: "msg_id (last (messages ?s1)) = modelMessageId d"
    by (simp add: l placeholder_def)
  show "last (messages ?s1) = placeholder d" by (rule l)
  show "last (messages (handleSendMessage d r chunks Completes s)) =
           (placeholder d)\<lparr> msg_text := concat (sendMessageStream chunks) \<rparr>"
    using last_setPlaceholderText [OF n i]
    by (simp add: handleSendMessage_accepted [OF assms] settle_def l) (simp add: placeholder_def)
  show "length (streamingStates d b chunks s) = length (sendMessageStream chunks)"
    by (simp add: streamingStates_def forAwait_length)
  fix j assume "j < length (sendMessageStream chunks)"
  then show "last (messages (streamingStates d b chunks s ! j)) =
              (placeholder d)\<lparr> msg_text := concat (take (Suc j) (sendMessageStream chunks)) \<rparr>"
    using last_setPlaceholderText [OF n i]
    by (simp add: streamingStates_def forAwait_nth l)
qed

theorem stream_accumulates_witness:
  "\<not> sendRejected helloApp
   \<and> encodeImage (capture helloApp) ReadFailed = Inr None
   \<and> last (messages (handleSendMessage exampleDraws ReadFailed exampleChunks Completes helloApp)) =
       \<lparr> msg_id = ''m-1'', msg_role = MODEL, msg_text = ''Hi there!'',
         msg_image = None, msg_timestamp = 1002, msg_isError = None \<rparr>
   \<and> msg_text (last (messages (streamingStates exampleDraws None exampleChunks helloApp ! 0))) = ''Hi''
   \<and> msg_text (last (messages (streamingStates exampleDraws None exampleChunks helloApp ! 1))) = ''Hi there!''"
  using stream_accumulates [OF helloApp_accepted helloApp_encode, of exampleDraws exampleChunks]
    helloApp_accepted helloApp_encode
  by (simp add: exampleChunks_fragments placeholder_def exampleDraws_def)

text \<open>
  Claim C2. When the response throws, after any number of fragments, the placeholder
  ends with the fixed error text and the error flag set, and the loading flag is
  cleared. The list has grown by the user message and the placeholder only, every
  message before the placeholder whose id is not the placeholder's is as it was
  (all of them, when the placeholder's id is fresh), and exactly one request has been
  sent: there is no second attempt.
\<close>

theorem stream_error_overwrites:
  assumes "\<not> sendRejected s" and "encodeImage (capture s) r = Inr b"
  shows "last (messages (handleSendMessage d r chunks Throws s)) =
           (placeholder d)\<lparr> msg_text := errorText, msg_isError := Some True \<rparr>
       \<and> isLoading (handleSendMessage d r chunks Throws s) = False
       \<and> length (messages (handleSendMessage d r chunks Throws s)) = length (messages s) + 2
       \<and> (\<forall>i < length (messages s) + 1.
            msg_id ((messages s @ [newUserMessage d (capture s)]) ! i) \<noteq> modelMessageId d \<longrightarrow>
            messages (handleSendMessage d r chunks Throws s) ! i =
              (messages s @ [newUserMessage d (capture s)]) ! i)
       \<and> (modelMessageId d \<notin> msg_id ` set (messages s) \<and> modelMessageId d \<noteq> userMessageId d \<longrightarrow>
            messages (handleSendMessage d r chunks Throws s) =
              messages s @ [newUserMessage d (capture s),
                (placeholder d)\<lparr> msg_text := errorText, msg_isError := Some True \<rparr>])
       \<and> length (sentRequests (handleSendMessage d r chunks Throws s)) =
            Suc (length (sentRequests s))"
proof (intro conjI allI impI)
  note m = handleSendMessage_Throws_messages [OF assms]
  show "last (messages (handleSendMessage d r chunks Throws s)) =
           (placeholder d)\<lparr> msg_text := errorText, msg_isError := Some True \<rparr>"
    by (simp add: m placeholder_def)
  show "isLoading (handleSendMessage d r chunks Throws s) = False"
    by (simp add: handleSendMessage_accepted [OF assms] settle_def setPlaceholderError_def)
  show "length (messages (handleSendMessage d r chunks Throws s)) = length (messages s) + 2"
    by (simp add: m)
  show "length (sentRequests (handleSendMessage d r chunks Throws s)) =
            Suc (length (sentRequests s))"
    using beginStream_sentRequests [of d "capture s" b s]
    by (auto simp add: handleSendMessage_accepted [OF assms] settle_def setPlaceholderError_def
        setPlaceholderText_def)
next
  note m = handleSendMessage_Throws_messages [OF assms]
  fix i
  define base where "base = messages s @ [newUserMessage d (capture s)]"
  define err where "err = (\<lambda>msg :: Message. if msg_id msg = modelMessageId d
                 then msg\<lparr> msg_text := errorText, msg_isError := Some True \<rparr> else msg)"
  assume "i < length (messages s) + 1"
    and "msg_id ((messages s @ [newUserMessage d (capture s)]) ! i) \<noteq> modelMessageId d"
  then have i: "i < length base" and n: "msg_id (base ! i) \<noteq> modelMessageId d"
    by (simp_all add: base_def)
  have "messages (handleSendMessage d r chunks Throws s) = map err base @ [err (placeholder d)]"
    by (simp add: m base_def err_def)
  then have "messages (handleSendMessage d r chunks Throws s) ! i = map err base ! i"
    using i by (simp add: nth_append)
  also have "\<dots> = base ! i"
    using i n by (simp add: err_def)
  finally show "messages (handleSendMessage d r chunks Throws s) ! i =
              (messages s @ [newUserMessage d (capture s)]) ! i"
    by (simp add: base_def)
next
  note m = handleSendMessage_Throws_messages [OF assms]
  assume f: "modelMessageId d \<notin> msg_id ` set (messages s) \<and> modelMessageId d \<noteq> userMessageId d"
  then have "map (\<lambda>msg. if msg_id msg = modelMessageId d
                 then msg\<lparr> msg_text := errorText, msg_isError := Some True \<rparr> else msg) (messages s)
      = messages s"
    by (intro map_idI) force
  with f show "messages (handleSendMessage d r chunks Throws s) =
              messages s @ [newUserMessage d (capture s),
                (placeholder d)\<lparr> msg_text := errorText, msg_isError := Some True \<rparr>]"
    by (auto simp add: m newUserMessage_def placeholder_def)
qed

theorem stream_error_overwrites_witness:
  "\<not> sendRejected helloApp
   \<and> encodeImage (capture helloApp) ReadFailed = Inr None
   \<and> messages (handleSendMessage exampleDraws ReadFailed exampleChunks Throws helloApp) =
       messages helloApp @
       [\<lparr> msg_id = ''u-1'', msg_role = USER, msg_text = ''Hello'',
          msg_image = None, msg_timestamp = 1001, msg_isError = None \<rparr>,
        \<lparr> msg_id = ''m-1'', msg_role = MODEL, msg_text = errorText,
          msg_image = None, msg_timestamp = 1002, msg_isError = Some True \<rparr>]
   \<and> isLoading (handleSendMessage exampleDraws ReadFailed exampleChunks Throws helloApp) = False
   \<and> length (sentRequests (handleSendMessage exampleDraws ReadFailed exampleChunks Throws helloApp)) = 1"
proof -
  have fresh: "modelMessageId exampleDraws \<notin> msg_id ` set (messages helloApp)
               \<and> modelMessageId exampleDraws \<noteq> userMessageId exampleDraws"
    by (simp add: exampleDraws_def helloApp_def mounted_def startNewChat_def)
  have req: "sentRequests helloApp = []"
    by (simp add: helloApp_def mounted_def startNewChat_def)
  have cap: "capture helloApp = \<lparr> currentText = ''Hello'', currentImage = None, currentPreview = None, closureModel = FLASH \<rparr>"
    by (simp add: capture_def helloApp_def mounted_def startNewChat_def)
  show ?thesis
    using stream_error_overwrites [OF helloApp_accepted helloApp_encode, of exampleDraws exampleChunks]
      helloApp_accepted helloApp_encode fresh
    by (simp add: req cap newUserMessage_def placeholder_def exampleDraws_def)
qed

text \<open>
  Claim C3. With an input that is empty after trimming and no image attached, the
  handler returns the state it was given: nothing is appended, no request is sent and
  the loading flag is as before; in the machine no task is created.
\<close>

theorem empty_send_rejected:
  "trim (inputValue s) = [] \<Longrightarrow> selectedImage s = None \<Longrightarrow>
     handleSendMessage d r chunks outcome s = s
     \<and> step \<lparr> app = s, tasks = ts \<rparr> (Send d) = \<lparr> app = s, tasks = ts \<rparr>"
  by (simp add: handleSendMessage_def sendRejected_def)

theorem empty_send_rejected_witness:
  "trim (inputValue ((mounted 1000)\<lparr> inputValue := ''  '' \<rparr>)) = []
   \<and> selectedImage ((mounted 1000)\<lparr> inputValue := ''  '' \<rparr>) = None
   \<and> handleSendMessage exampleDraws ReadFailed exampleChunks Completes ((mounted 1000)\<lparr> inputValue := ''  '' \<rparr>)
       = (mounted 1000)\<lparr> inputValue := ''  '' \<rparr>
   \<and> step \<lparr> app = (mounted 1000)\<lparr> inputValue := ''  '' \<rparr>, tasks = [] \<rparr> (Send exampleDraws)
       = \<lparr> app = (mounted 1000)\<lparr> inputValue := ''  '' \<rparr>, tasks = [] \<rparr>"
proof -
  have t: "trim (inputValue ((mounted 1000)\<lparr> inputValue := ''  '' \<rparr>)) = []"
    by (simp add: trim_def isWhiteSpace_def)
  have i: "selectedImage ((mounted 1000)\<lparr> inputValue := ''  '' \<rparr>) = None"
    by (simp add: mounted_def startNewChat_def)
  from empty_send_rejected [OF t i, of exampleDraws ReadFailed exampleChunks Completes "[]"] t i
  show ?thesis by simp
qed

text \<open>
  Claim C7, as amended. A send with an image attached whose encoded data is not empty
  sends a request of two parts: the text, or \<open>What is in this image?\<close> when the text
  is empty, and the encoded image with the content type of the file. A send without an
  image sends the input text as a plain message. A send with an image whose encoded
  data is absent or empty sends a plain message as well. In every case the request
  goes to the session of the state.
\<close>

theorem request_payload:
  assumes "\<not> sendRejected s" and "encodeImage (capture s) r = Inr b"
  shows "(\<forall>file data. selectedImage s = Some file \<and> b = Some data \<and> data \<noteq> [] \<longrightarrow>
            map snd (sentRequests (handleSendMessage d r chunks outcome s)) =
              map snd (sentRequests s) @
              [ContentMessage ''user''
                 [TextPart (if inputValue s = [] then ''What is in this image?'' else inputValue s),
                  InlineData (file_type file) data]])
       \<and> (selectedImage s = None \<longrightarrow>
            map snd (sentRequests (handleSendMessage d r chunks outcome s)) =
              map snd (sentRequests s) @ [TextMessage (inputValue s)])
       \<and> (selectedImage s \<noteq> None \<and> (b = None \<or> b = Some []) \<longrightarrow>
            map snd (sentRequests (handleSendMessage d r chunks outcome s)) =
              map snd (sentRequests s) @
              [TextMessage (if inputValue s = [] then ''What is in this image?'' else inputValue s)])
       \<and> (\<exists>chat. chatSessionRef (handleSendMessage d r chunks outcome s) = Some chat
             \<and> map fst (sentRequests (handleSendMessage d r chunks outcome s)) =
                 map fst (sentRequests s) @ [chat])"
proof -
  have n: "selectedImage s = None \<Longrightarrow> inputValue s \<noteq> []"
    using assms(1) trim_nonempty [of "inputValue s"] by (auto simp: sendRejected_def)
  from handleSendMessage_sentRequests [OF assms, of d chunks outcome]
  obtain chat where c: "chatSessionRef (handleSendMessage d r chunks outcome s) = Some chat"
    and q: "sentRequests (handleSendMessage d r chunks outcome s) =
         sentRequests s @ [(chat, buildRequest (promptText (capture s)) b
                                   (map_option file_type (selectedImage s)))]"
    by blast
  show ?thesis
  proof (intro conjI allI impI)
    fix img data
    assume "selectedImage s = Some img \<and> b = Some data \<and> data \<noteq> []"
    then show "map snd (sentRequests (handleSendMessage d r chunks outcome s)) =
              map snd (sentRequests s) @
              [ContentMessage ''user''
                 [TextPart (if inputValue s = [] then ''What is in this image?'' else inputValue s),
                  InlineData (file_type img) data]]"
      by (simp add: q buildRequest_def promptText_def capture_def)
  next
    assume i: "selectedImage s = None"
    with assms(2) have "b = None" by (simp add: encodeImage_def capture_def)
    with i n show "map snd (sentRequests (handleSendMessage d r chunks outcome s)) =
              map snd (sentRequests s) @ [TextMessage (inputValue s)]"
      by (simp add: q buildRequest_def promptText_def capture_def)
  next
    assume "selectedImage s \<noteq> None \<and> (b = None \<or> b = Some [])"
    then show "map snd (sentRequests (handleSendMessage d r chunks outcome s)) =
              map snd (sentRequests s) @
              [TextMessage (if inputValue s = [] then ''What is in this image?'' else inputValue s)]"
      by (auto simp add: q buildRequest_def promptText_def capture_def)
  next
    show "\<exists>chat. chatSessionRef (handleSendMessage d r chunks outcome s) = Some chat
             \<and> map fst (sentRequests (handleSendMessage d r chunks outcome s)) =
                 map fst (sentRequests s) @ [chat]"
      using c q by simp
  qed
qed

theorem request_payload_witness:
  "\<not> sendRejected imageApp
   \<and> encodeImage (capture imageApp) (ReadLoaded ''data:image/png;base64,iVBORw0KGgo='') = Inr (Some ''iVBORw0KGgo='')
   \<and> selectedImage imageApp = Some exampleFile
   \<and> map snd (sentRequests (handleSendMessage exampleDraws (ReadLoaded ''data:image/png;base64,iVBORw0KGgo='') exampleChunks Completes imageApp)) =
       [ContentMessage ''user'' [TextPart ''What is in this image?'', InlineData ''image/png'' ''iVBORw0KGgo='']]
   \<and> \<not> sendRejected helloApp
   \<and> encodeImage (capture helloApp) ReadFailed = Inr None
   \<and> selectedImage helloApp = None
   \<and> map snd (sentRequests (handleSendMessage exampleDraws ReadFailed exampleChunks Completes helloApp)) =
       [TextMessage ''Hello'']"
proof -
  have a: "\<not> sendRejected imageApp"
    by (simp add: sendRejected_def imageApp_fields)
  have e: "encodeImage (capture imageApp) (ReadLoaded ''data:image/png;base64,iVBORw0KGgo='') = Inr (Some ''iVBORw0KGgo='')"
    by (simp add: encodeImage_def capture_def imageApp_fields fileToGenerativePart_def)
  from request_payload [OF a e, of exampleDraws exampleChunks Completes]
  have 1: "map snd (sentRequests (handleSendMessage exampleDraws (ReadLoaded ''data:image/png;base64,iVBORw0KGgo='') exampleChunks Completes imageApp)) =
       [ContentMessage ''user'' [TextPart ''What is in this image?'', InlineData ''image/png'' ''iVBORw0KGgo='']]"
    by (simp add: imageApp_fields exampleFile_def)
  from request_payload [OF helloApp_accepted helloApp_encode, of exampleDraws exampleChunks Completes]
  have 2: "map snd (sentRequests (handleSendMessage exampleDraws ReadFailed exampleChunks Completes helloApp)) =
       [TextMessage ''Hello'']"
    by (simp add: helloApp_fields)
  from a e 1 2 helloApp_accepted helloApp_encode show ?thesis
    by (simp add: imageApp_fields helloApp_fields)
qed

text \<open>
  Claim request_payload as stated fails: an image is attached, the reader delivers a data URL with
  nothing after the comma (an empty file), and the request is a plain message.
\<close>

theorem request_payload_counterexample:
  "selectedImage imageApp = Some exampleFile
   \<and> \<not> sendRejected imageApp
   \<and> map snd (sentRequests (handleSendMessage exampleDraws (ReadLoaded ''data:image/png;base64,'') exampleChunks Completes imageApp))
       = [TextMessage ''What is in this image?'']"
proof -
  have a: "\<not> sendRejected imageApp"
    by (simp add: sendRejected_def imageApp_fields)
  have e: "encodeImage (capture imageApp) (ReadLoaded ''data:image/png;base64,'') = Inr (Some [])"
    by (simp add: encodeImage_def capture_def imageApp_fields fileToGenerativePart_def)
  from handleSendMessage_sentRequests [OF a e, of exampleDraws exampleChunks Completes] a
  show ?thesis
    by (auto simp add: imageApp_fields buildRequest_def promptText_def capture_def)
qed

text \<open>
  Claim C10. The update on a fragment and the update of the error path keep the length
  of the list and the ids in their order, and leave every message whose id is not the
  given one as it is. In a send whose placeholder id is fresh, the messages before the
  placeholder, which are the prior history and the user message, are the same in the
  state after every fragment and in the final state, whatever the outcome.
\<close>

theorem placeholder_updates_frame:
  "length (messages (setPlaceholderText mid t s)) = length (messages s)
   \<and> map msg_id (messages (setPlaceholderText mid t s)) = map msg_id (messages s)
   \<and> (\<forall>i < length (messages s). msg_id (messages s ! i) \<noteq> mid \<longrightarrow>
         messages (setPlaceholderText mid t s) ! i = messages s ! i)
   \<and> length (messages (setPlaceholderError mid s)) = length (messages s)
   \<and> map msg_id (messages (setPlaceholderError mid s)) = map msg_id (messages s)
   \<and> (\<forall>i < length (messages s). msg_id (messages s ! i) \<noteq> mid \<longrightarrow>
         messages (setPlaceholderError mid s) ! i = messages s ! i)
   \<and> (modelMessageId d \<notin> msg_id ` set (messages s) \<and> modelMessageId d \<noteq> userMessageId d \<longrightarrow>
        (\<forall>j < length (sendMessageStream chunks).
           butlast (messages (streamingStates d b chunks s ! j)) =
             messages s @ [newUserMessage d (capture s)])
        \<and> (\<not> sendRejected s \<and> encodeImage (capture s) r = Inr b \<longrightarrow>
             butlast (messages (handleSendMessage d r chunks outcome s)) =
               messages s @ [newUserMessage d (capture s)]))"
proof (intro conjI allI impI)
  show "length (messages (setPlaceholderText mid t s)) = length (messages s)"
    by (simp add: setPlaceholderText_def)
  show "map msg_id (messages (setPlaceholderText mid t s)) = map msg_id (messages s)"
    by (simp add: setPlaceholderText_def)
  show "length (messages (setPlaceholderError mid s)) = length (messages s)"
    by (simp add: setPlaceholderError_def)
  show "map msg_id (messages (setPlaceholderError mid s)) = map msg_id (messages s)"
    by (simp add: setPlaceholderError_def)
next
  fix i assume "i < length (messages s)" and "msg_id (messages s ! i) \<noteq> mid"
  then show "messages (setPlaceholderText mid t s) ! i = messages s ! i"
    by (simp add: setPlaceholderText_def)
next
  fix i assume "i < length (messages s)" and "msg_id (messages s ! i) \<noteq> mid"
  then show "messages (setPlaceholderError mid s) ! i = messages s ! i"
    by (simp add: setPlaceholderError_def)
next
  fix j
  assume f: "modelMessageId d \<notin> msg_id ` set (messages s) \<and> modelMessageId d \<noteq> userMessageId d"
    and j: "j < length (sendMessageStream chunks)"
  from f have u: "msg_id (newUserMessage d (capture s)) \<noteq> modelMessageId d"
    by (auto simp add: newUserMessage_def)
  from f show "butlast (messages (streamingStates d b chunks s ! j)) =
             messages s @ [newUserMessage d (capture s)]"
    using j u
    by (simp add: streamingStates_def forAwait_nth setPlaceholderText_def beginStream_messages
        map_fresh butlast_append)
next
  assume f: "modelMessageId d \<notin> msg_id ` set (messages s) \<and> modelMessageId d \<noteq> userMessageId d"
    and a: "\<not> sendRejected s \<and> encodeImage (capture s) r = Inr b"
  from f have u: "msg_id (newUserMessage d (capture s)) \<noteq> modelMessageId d"
    by (auto simp add: newUserMessage_def)
  from a have a1: "\<not> sendRejected s" and a2: "encodeImage (capture s) r = Inr b" by simp_all
  show "butlast (messages (handleSendMessage d r chunks outcome s)) =
               messages s @ [newUserMessage d (capture s)]"
  proof (cases outcome)
    case Completes
    with f u show ?thesis
      by (simp add: handleSendMessage_accepted [OF a1 a2] settle_def setPlaceholderText_def
          beginStream_messages map_fresh butlast_append)
  next
    case Throws
    with f u show ?thesis
      by (simp add: handleSendMessage_Throws_messages [OF a1 a2] map_fresh butlast_append)
  qed
qed

theorem placeholder_updates_frame_witness:
  "modelMessageId exampleDraws \<notin> msg_id ` set (messages helloApp)
   \<and> modelMessageId exampleDraws \<noteq> userMessageId exampleDraws
   \<and> \<not> sendRejected helloApp
   \<and> encodeImage (capture helloApp) ReadFailed = Inr None
   \<and> butlast (messages (streamingStates exampleDraws None exampleChunks helloApp ! 1)) =
       messages helloApp @ [newUserMessage exampleDraws (capture helloApp)]
   \<and> butlast (messages (handleSendMessage exampleDraws ReadFailed exampleChunks Throws helloApp)) =
       messages helloApp @ [newUserMessage exampleDraws (capture helloApp)]
   \<and> messages (setPlaceholderText ''welcome'' ''x'' helloApp) ! 0 =
       (messages helloApp ! 0)\<lparr> msg_text := ''x'' \<rparr>
   \<and> msg_id (messages helloApp ! 0) \<noteq> ''m-1''
   \<and> messages (setPlaceholderText ''m-1'' ''x'' helloApp) ! 0 = messages helloApp ! 0
   \<and> messages (setPlaceholderError ''m-1'' helloApp) ! 0 = messages helloApp ! 0"
proof -
  have fresh: "modelMessageId exampleDraws \<notin> msg_id ` set (messages helloApp)
               \<and> modelMessageId exampleDraws \<noteq> userMessageId exampleDraws"
    by (simp add: exampleDraws_def helloApp_def mounted_def startNewChat_def)
  have m: "messages helloApp =
     [\<lparr> msg_id = ''welcome'', msg_role = MODEL, msg_text = welcomeText,
              msg_image = None, msg_timestamp = 1000, msg_isError = None \<rparr>]"
    by (simp add: helloApp_def mounted_def startNewChat_def)
  from placeholder_updates_frame [of "''m-1''" "''x''" helloApp exampleDraws exampleChunks None ReadFailed Throws]
  show ?thesis
    using fresh helloApp_accepted helloApp_encode
    by (simp add: exampleChunks_fragments m setPlaceholderText_def)
qed

text \<open>
  Claim C4, at an input where it fails. With an image attached, a first click on send
  suspends while the image is read and the loading flag is still unset; a second click
  is accepted; when both images are read, two sends are streaming, and each writes the
  fragments it receives into its own placeholder.
\<close>

theorem sends_overlap:
  "isLoading (app (run \<lparr> app = mounted 1000, tasks = [] \<rparr> (take 3 overlapEvents))) = False
   \<and> tasks (run \<lparr> app = mounted 1000, tasks = [] \<rparr> (take 3 overlapEvents)) =
       [Encoding exampleDraws \<lparr> currentText = ''hi'', currentImage = Some exampleFile,
          currentPreview = Some ''blob:1'', closureModel = FLASH \<rparr>]
   \<and> tasks (run \<lparr> app = mounted 1000, tasks = [] \<rparr> overlapEvents) =
       [Streaming ''m-1'' [], Streaming ''m-2'' []]
   \<and> streamingCount (run \<lparr> app = mounted 1000, tasks = [] \<rparr> overlapEvents) = 2
   \<and> map msg_text (messages (app (run \<lparr> app = mounted 1000, tasks = [] \<rparr>
        (overlapEvents @ [Chunk 0 (GenerateContentResponse (Some ''a'')),
                          Chunk 1 (GenerateContentResponse (Some ''b''))])))) =
       [welcomeText, ''hi'', ''a'', ''hi'', ''b'']"
  by (simp add: run_def overlapEvents_def mounted_def startNewChat_def handleFileSelect_def
      exampleFile_def startsWith_def sendRejected_def trim_def isWhiteSpace_def capture_def
      fileToGenerativePart_def Let_def beginStream_def clearImage_def task_def
      exampleDraws_def laterDraws_def streamingCount_def setPlaceholderText_def
      newUserMessage_def placeholder_def)

section \<open>The claims about the other handlers\<close>

text \<open>
  Claim C5. Whatever the message list was, after \<open>handleClearChat\<close> it holds exactly
  one message, the greeting, with the role of the model and no error flag; the session
  reference holds a session created now for the selected model variant, which is not
  the session that was in use.
\<close>

theorem clear_resets:
  "messages (handleClearChat uuid now s) =
     [\<lparr> msg_id = uuid, msg_role = MODEL, msg_text = clearedText,
        msg_image = None, msg_timestamp = now, msg_isError = None \<rparr>]
   \<and> length (messages (handleClearChat uuid now s)) = 1
   \<and> chatSessionRef (handleClearChat uuid now s) =
       Some (createChatSession (chatsCreated s) (selectedModel s) None)
   \<and> chat_model (createChatSession (chatsCreated s) (selectedModel s) None) = selectedModel s
   \<and> chatsCreated (handleClearChat uuid now s) = Suc (chatsCreated s)
   \<and> (sessionsCounted s \<longrightarrow> chatSessionRef (handleClearChat uuid now s) \<noteq> chatSessionRef s)"
  by (auto simp add: handleClearChat_def createChatSession_def sessionsCounted_def split: option.splits)

theorem clear_resets_witness:
  "sessionsCounted (mounted 1000)
   \<and> length (messages (handleClearChat ''c-1'' 2000 (handleSendMessage exampleDraws ReadFailed exampleChunks Completes helloApp))) = 1
   \<and> msg_text (hd (messages (handleClearChat ''c-1'' 2000 (mounted 1000)))) = clearedText
   \<and> chatSessionRef (handleClearChat ''c-1'' 2000 (mounted 1000)) \<noteq> chatSessionRef (mounted 1000)"
proof -
  have c: "sessionsCounted (mounted 1000)"
    by (simp add: sessionsCounted_def mounted_def startNewChat_def createChatSession_def)
  from clear_resets [of "''c-1''" 2000 "mounted 1000"] c
    clear_resets [of "''c-1''" 2000 "handleSendMessage exampleDraws ReadFailed exampleChunks Completes helloApp"]
  show ?thesis by auto
qed

text \<open>
  Claim C8. A selected file whose content type does not start with \<open>image/\<close> is
  refused with an alert, and nothing else changes: in particular the message list and
  the attached image with its preview are as before.
\<close>

theorem non_image_rejected:
  "\<not> startsWith (file_type file) ''image/'' \<Longrightarrow>
     handleFileSelect (Some file) objectURL s = s\<lparr> alerts := alerts s @ [''Please select an image file.''] \<rparr>
   \<and> messages (handleFileSelect (Some file) objectURL s) = messages s
   \<and> selectedImage (handleFileSelect (Some file) objectURL s) = selectedImage s
   \<and> imagePreview (handleFileSelect (Some file) objectURL s) = imagePreview s"
  by (simp add: handleFileSelect_def)

theorem non_image_rejected_witness:
  "\<not> startsWith (file_type \<lparr> file_name = ''notes.pdf'', file_type = ''application/pdf'' \<rparr>) ''image/''
   \<and> alerts (handleFileSelect (Some \<lparr> file_name = ''notes.pdf'', file_type = ''application/pdf'' \<rparr>) ''blob:1'' helloApp)
       = [''Please select an image file.'']
   \<and> messages (handleFileSelect (Some \<lparr> file_name = ''notes.pdf'', file_type = ''application/pdf'' \<rparr>) ''blob:1'' helloApp) = messages helloApp
   \<and> selectedImage (handleFileSelect (Some \<lparr> file_name = ''notes.pdf'', file_type = ''application/pdf'' \<rparr>) ''blob:1'' helloApp) = None
   \<and> imagePreview (handleFileSelect (Some \<lparr> file_name = ''notes.pdf'', file_type = ''application/pdf'' \<rparr>) ''blob:1'' helloApp) = None"
proof -
  have n: "\<not> startsWith (file_type \<lparr> file_name = ''notes.pdf'', file_type = ''application/pdf'' \<rparr>) ''image/''"
    by (simp add: startsWith_def)
  have a: "alerts helloApp = [] \<and> selectedImage helloApp = None \<and> imagePreview helloApp = None"
    by (simp add: helloApp_def mounted_def startNewChat_def)
  from non_image_rejected [OF n, of "''blob:1''" helloApp] n a show ?thesis by simp
qed

text \<open>
  Claim C9. When the selected model variant changes, the session reference holds a
  session created now for the new variant, which is not the session that was in use,
  and the message list is as before.
\<close>

theorem model_change_recreates_session:
  "model \<noteq> selectedModel s \<Longrightarrow>
     chatSessionRef (selectModel model s) = Some (createChatSession (chatsCreated s) model None)
   \<and> chat_model (createChatSession (chatsCreated s) model None) = model
   \<and> chatsCreated (selectModel model s) = Suc (chatsCreated s)
   \<and> selectedModel (selectModel model s) = model
   \<and> messages (selectModel model s) = messages s
   \<and> (sessionsCounted s \<longrightarrow> chatSessionRef (selectModel model s) \<noteq> chatSessionRef s)"
  by (auto simp add: selectModel_def startNewChat_def createChatSession_def sessionsCounted_def split: option.splits)

theorem model_change_recreates_session_witness:
  "PRO \<noteq> selectedModel helloApp
   \<and> sessionsCounted helloApp
   \<and> chatSessionRef (selectModel PRO helloApp) = Some (createChatSession 1 PRO None)
   \<and> chatSessionRef (selectModel PRO helloApp) \<noteq> chatSessionRef helloApp
   \<and> messages (selectModel PRO helloApp) = messages helloApp"
proof -
  have n: "PRO \<noteq> selectedModel helloApp"
    by (simp add: helloApp_def mounted_def startNewChat_def)
  have c: "sessionsCounted helloApp"
    by (simp add: sessionsCounted_def helloApp_def mounted_def startNewChat_def createChatSession_def)
  have k: "chatsCreated helloApp = 1"
    by (simp add: helloApp_def mounted_def startNewChat_def)
  from model_change_recreates_session [OF n, of ] n c show ?thesis by (auto simp add: k)
qed

end
